theory Spec2Isabelle
  imports Main "HOL-Library.Multiset" "HOL-Library.Char_ord" "HOL-Library.List_Lexorder"
begin

section \<open>A shallow embedding of free-proxy-scraper.py\<close>

text \<open>
  The program is a linear pipeline: \<^verbatim>\<open>fetch_proxies\<close> scrapes a table of candidate
  proxies, \<^verbatim>\<open>check_proxy\<close> probes one candidate, \<^verbatim>\<open>main\<close> maps \<^verbatim>\<open>check_proxy\<close> over
  all candidates on a thread pool and hands the results to \<^verbatim>\<open>export_sorted_df\<close>.

  Everything the program does through a library is an input of the embedding:
  \<^item> \<^verbatim>\<open>requests.get\<close> is a function from the request to either the exception it raises
    or the response it returns;
  \<^item> the thread pool is a list of write-once futures together with the order in which
    the tasks complete;
  \<^item> \<^verbatim>\<open>time.localtime()\<close> is a \<open>struct_time\<close> value;
  \<^item> \<^verbatim>\<open>DataFrame.sort_values\<close> is its documented contract.
  Console output (the spinner, the \<^verbatim>\<open>timing\<close> report) is not part of any result and is
  left out.
\<close>

subsection \<open>Data model\<close>

text \<open>\<^verbatim>\<open>class Proxy(NamedTuple)\<close>: six string fields, immutable.\<close>

record Proxy =
  ip :: string
  port :: string
  country :: string
  anonymity :: string
  https :: string
  last_checked :: string

text \<open>
  Exceptions. \<^verbatim>\<open>requests.exceptions.RequestException\<close> is the base class of everything
  the \<^verbatim>\<open>requests\<close> library raises for a failed transfer: a timeout is
  \<open>ConnectTimeout\<close> or \<open>ReadTimeout\<close>, a DNS failure or a connection reset is
  \<open>ConnectionError\<close>, a TLS failure is \<open>SSLError\<close>, a refusal by the proxy is
  \<open>ProxyError\<close>. The other constructors of \<open>exc\<close> are the built-in classes the
  program itself can raise, and \<open>OtherException\<close> stands for any further class by name.
\<close>

datatype request_exception =
    ConnectionError
  | ProxyError
  | SSLError
  | ConnectTimeout
  | ReadTimeout
  | TooManyRedirects
  | InvalidURL
  | InvalidProxyURL
  | ChunkedEncodingError
  | ContentDecodingError
  | OtherRequestException string

datatype exc =
    RequestException request_exception
  | AttributeError
  | IndexError
  | ValueError
  | KeyError
  | OtherException string

text \<open>\<^verbatim>\<open>except requests.exceptions.RequestException\<close> matches by class.\<close>

fun is_RequestException :: "exc \<Rightarrow> bool" where
  "is_RequestException (RequestException _) = True"
| "is_RequestException _ = False"

text \<open>
  A parsed page: the tables of the document in document order, each with its
  \<^verbatim>\<open>class\<close> attribute and, for every \<^verbatim>\<open>tr\<close>, the texts of its \<^verbatim>\<open>td\<close> cells.
  A request is its URL, its \<^verbatim>\<open>proxies\<close> argument (the field \<open>via\<close>) and its timeout.
\<close>

record html_table =
  table_class :: string
  table_rows :: "string list list"

record response =
  status_code :: int
  content :: "html_table list"

record request =
  url :: string
  via :: "(string \<times> string) list"
  timeout :: "nat option"

type_synonym http = "request \<Rightarrow> exc + response"

subsection \<open>The timing decorator\<close>

text \<open>
  \<^verbatim>\<open>timing\<close> calls the wrapped function, prints the elapsed time and returns the
  function's result unchanged; an exception of the wrapped function passes through
  (there is no \<^verbatim>\<open>try\<close>).
\<close>

definition timing :: "('a \<Rightarrow> 'b) \<Rightarrow> 'a \<Rightarrow> 'b" where
  "timing f args = (let result = f args in result)"

subsection \<open>check_proxy\<close>

text \<open>
  The probe: \<^verbatim>\<open>requests.get("https://www.google.com", proxies={"https": f"{ip}:{port}"},
  timeout=5)\<close>.
\<close>

definition probe_request :: "Proxy \<Rightarrow> request" where
  "probe_request proxy =
     \<lparr>url = ''https://www.google.com'',
      via = [(''https'', ip proxy @ '':'' @ port proxy)],
      timeout = Some 5\<rparr>"

definition check_proxy_body :: "http \<Rightarrow> Proxy \<Rightarrow> exc + Proxy \<times> string" where
  "check_proxy_body get proxy =
     (case get (probe_request proxy) of
        Inr resp \<Rightarrow>
          if status_code resp = 200 then Inr (proxy, ''working'')
          else Inr (proxy, ''not working'')
      | Inl e \<Rightarrow>
          if is_RequestException e then Inr (proxy, ''not working'')
          else Inl e)"

definition check_proxy :: "http \<Rightarrow> Proxy \<Rightarrow> exc + Proxy \<times> string" where
  "check_proxy get = timing (check_proxy_body get)"

subsection \<open>The dispatch loop of main\<close>

text \<open>
  \<^verbatim>\<open>executor.map(check_proxy, proxies)\<close> submits one task per element at the call, in
  input order, and keeps the futures in that order; the arguments of every task are
  bound at submission, so the later assignments to \<^verbatim>\<open>proxies[i]\<close> do not reach them.
  A worker that finishes task \<open>j\<close> stores the outcome (a result or the exception raised)
  in future \<open>j\<close>. The order in which the tasks finish is the list \<open>sched\<close>; an index in
  it that names no task changes nothing.
\<close>

type_synonym future = "(exc + Proxy \<times> string) option"

definition submit_all :: "Proxy list \<Rightarrow> future list" where
  "submit_all ps = replicate (length ps) None"

definition run_task :: "(nat \<Rightarrow> http) \<Rightarrow> Proxy list \<Rightarrow> future list \<Rightarrow> nat \<Rightarrow> future list" where
  "run_task gets ps fs j =
     (if j < length ps then fs[j := Some (check_proxy (gets j) (ps ! j))] else fs)"

definition run_pool :: "(nat \<Rightarrow> http) \<Rightarrow> nat list \<Rightarrow> Proxy list \<Rightarrow> future list" where
  "run_pool gets sched ps = foldl (run_task gets ps) (submit_all ps) sched"

text \<open>
  The list \<^verbatim>\<open>proxies\<close> of \<^verbatim>\<open>main\<close> holds \<^verbatim>\<open>Proxy\<close> values at first; the loop overwrites
  element \<open>i\<close> with the pair that the iterator yields as its \<open>i\<close>-th item. The iterator
  yields the results of the futures in submission order: it waits for a future that is
  not finished (for ever, if the task never finishes: the value \<open>None\<close>) and raises the
  exception of a task that raised, which ends \<^verbatim>\<open>main\<close>.
\<close>

datatype cell = Unchecked Proxy | Checked Proxy string

fun dispatch_loop :: "cell list \<Rightarrow> nat \<Rightarrow> future list \<Rightarrow> (exc + cell list) option" where
  "dispatch_loop proxies i [] = Some (Inr proxies)"
| "dispatch_loop proxies i (None # fs) = None"
| "dispatch_loop proxies i (Some (Inl e) # fs) = Some (Inl e)"
| "dispatch_loop proxies i (Some (Inr (proxy, status)) # fs) =
     dispatch_loop (proxies[i := Checked proxy status]) (Suc i) fs"

definition dispatch :: "(nat \<Rightarrow> http) \<Rightarrow> nat list \<Rightarrow> Proxy list \<Rightarrow> (exc + cell list) option" where
  "dispatch gets sched ps = dispatch_loop (map Unchecked ps) 0 (run_pool gets sched ps)"

subsection \<open>fetch_proxies\<close>

text \<open>
  \<^verbatim>\<open>requests.get(url)\<close> with no proxy and no timeout; an exception it raises is not
  caught anywhere. \<^verbatim>\<open>soup.find("table", attrs={"class": ...})\<close> gives the first table with
  that class or \<^verbatim>\<open>None\<close>, and \<^verbatim>\<open>None.find_all\<close> raises \<^verbatim>\<open>AttributeError\<close>.
  \<^verbatim>\<open>cols[i]\<close> raises \<^verbatim>\<open>IndexError\<close> out of range.
\<close>

definition fetch_request :: request where
  "fetch_request = \<lparr>url = ''https://free-proxy-list.net/'', via = [], timeout = None\<rparr>"

definition find_table :: "html_table list \<Rightarrow> html_table option" where
  "find_table soup =
     List.find (\<lambda>t. table_class t = ''table table-striped table-bordered'') soup"

definition item :: "'a list \<Rightarrow> nat \<Rightarrow> exc + 'a" where
  "item xs i = (if i < length xs then Inr (xs ! i) else Inl IndexError)"

definition parse_row :: "string list \<Rightarrow> exc + Proxy" where
  "parse_row cols =
     (case item cols 0 of Inl e \<Rightarrow> Inl e | Inr c0 \<Rightarrow>
      case item cols 1 of Inl e \<Rightarrow> Inl e | Inr c1 \<Rightarrow>
      case item cols 3 of Inl e \<Rightarrow> Inl e | Inr c3 \<Rightarrow>
      case item cols 4 of Inl e \<Rightarrow> Inl e | Inr c4 \<Rightarrow>
      case item cols 6 of Inl e \<Rightarrow> Inl e | Inr c6 \<Rightarrow>
      case item cols 7 of Inl e \<Rightarrow> Inl e | Inr c7 \<Rightarrow>
        Inr \<lparr>ip = c0, port = c1, country = c3, anonymity = c4, https = c6,
             last_checked = c7\<rparr>)"

text \<open>The \<^verbatim>\<open>for\<close> loop over the rows, with the list \<^verbatim>\<open>proxies\<close> it appends to.\<close>

fun parse_rows :: "string list list \<Rightarrow> Proxy list \<Rightarrow> exc + Proxy list" where
  "parse_rows [] proxies = Inr proxies"
| "parse_rows (row # rest) proxies =
     (case parse_row row of
        Inl e \<Rightarrow> Inl e
      | Inr proxy \<Rightarrow> parse_rows rest (proxies @ [proxy]))"

definition fetch_proxies :: "http \<Rightarrow> exc + Proxy list" where
  "fetch_proxies get =
     (case get fetch_request of
        Inl e \<Rightarrow> Inl e
      | Inr resp \<Rightarrow>
          (case find_table (content resp) of
             None \<Rightarrow> Inl AttributeError
           | Some table \<Rightarrow> parse_rows (drop 1 (table_rows table)) []))"

subsection \<open>The data frame of main\<close>

text \<open>
  \<^verbatim>\<open>proxies, statuses = zip(*proxies)\<close>: \<^verbatim>\<open>zip\<close> of no arguments yields nothing, and
  unpacking nothing into two names raises \<^verbatim>\<open>ValueError\<close>. On a list of pairs it yields
  the tuple of the records and the tuple of the statuses. (The loop leaves no element
  unchecked, lemma \<open>dispatch_Inr\<close>, so only pairs are unpacked.)
\<close>

definition unzip :: "cell list \<Rightarrow> exc + Proxy list \<times> string list" where
  "unzip cells =
     (if cells = [] then Inl ValueError
      else Inr ([p. Checked p s \<leftarrow> cells], [s. Checked p s \<leftarrow> cells]))"

text \<open>
  A frame is its column labels and its rows. \<^verbatim>\<open>pd.DataFrame\<close> of a sequence of named
  tuples takes the labels from the tuple's fields; of an empty sequence it has no
  column. \<^verbatim>\<open>df["status"] = statuses\<close> appends a column and raises \<^verbatim>\<open>ValueError\<close> when
  the lengths differ.
\<close>

record dataframe =
  columns :: "string list"
  rows :: "string list list"

definition Proxy_fields :: "string list" where
  "Proxy_fields = [''ip'', ''port'', ''country'', ''anonymity'', ''https'', ''last_checked'']"

definition astuple :: "Proxy \<Rightarrow> string list" where
  "astuple p = [ip p, port p, country p, anonymity p, https p, last_checked p]"

definition DataFrame :: "Proxy list \<Rightarrow> dataframe" where
  "DataFrame ps =
     (if ps = [] then \<lparr>columns = [], rows = []\<rparr>
      else \<lparr>columns = Proxy_fields, rows = map astuple ps\<rparr>)"

definition set_status :: "dataframe \<Rightarrow> string list \<Rightarrow> exc + dataframe" where
  "set_status df statuses =
     (if length statuses \<noteq> length (rows df) then Inl ValueError
      else Inr \<lparr>columns = columns df @ [''status''],
                rows = map2 (\<lambda>r s. r @ [s]) (rows df) statuses\<rparr>)"

definition build_frame :: "cell list \<Rightarrow> exc + dataframe" where
  "build_frame cells =
     (case unzip cells of
        Inl e \<Rightarrow> Inl e
      | Inr (ps, statuses) \<Rightarrow> set_status (DataFrame ps) statuses)"

subsection \<open>export_sorted_df\<close>

text \<open>
  \<^verbatim>\<open>df.sort_values(by="status", inplace=True, ascending=False)\<close> names no \<^verbatim>\<open>kind\<close>, so
  pandas sorts with its default, \<^verbatim>\<open>quicksort\<close>, which pandas documents as not stable
  (only \<^verbatim>\<open>mergesort\<close> and \<^verbatim>\<open>stable\<close> are). What the call guarantees is its contract: the
  rows afterwards are the rows before, in an order in which the keys descend. The
  embedding is that contract, a relation between the frame and a possible result; a
  label that is no column raises \<^verbatim>\<open>KeyError\<close>. Strings compare as in Python, by code
  point, so \<^verbatim>\<open>"working"\<close> is above \<^verbatim>\<open>"not working"\<close>.
\<close>

fun index_of :: "'a \<Rightarrow> 'a list \<Rightarrow> nat option" where
  "index_of a [] = None"
| "index_of a (x # xs) = (if x = a then Some 0 else map_option Suc (index_of a xs))"

definition sort_values :: "dataframe \<Rightarrow> string \<Rightarrow> exc + dataframe \<Rightarrow> bool" where
  "sort_values df label res =
     (case index_of label (columns df) of
        None \<Rightarrow> res = Inl KeyError
      | Some k \<Rightarrow>
          (case res of
             Inl e \<Rightarrow> False
           | Inr df' \<Rightarrow> columns df' = columns df \<and> mset (rows df') = mset (rows df)
               \<and> sorted_wrt (\<lambda>r r'. r' ! k \<le> r ! k) (rows df')))"

text \<open>
  \<^verbatim>\<open>time.strftime("%Y_%m_%d_%H%M", time.localtime())\<close>: the year in decimal, then month,
  day, hour and minute with two digits each.
\<close>

record struct_time =
  tm_year :: nat
  tm_mon :: nat
  tm_mday :: nat
  tm_hour :: nat
  tm_min :: nat
  tm_sec :: nat

definition digit :: "nat \<Rightarrow> char" where
  "digit d = ''0123456789'' ! (d mod 10)"

fun decimal :: "nat \<Rightarrow> string" where
  "decimal n = (if n < 10 then [digit n] else decimal (n div 10) @ [digit (n mod 10)])"

declare decimal.simps [simp del]

definition two_digits :: "nat \<Rightarrow> string" where
  "two_digits n = [digit (n div 10), digit (n mod 10)]"

definition datetime_string :: "struct_time \<Rightarrow> string" where
  "datetime_string t =
     decimal (tm_year t) @ ''_'' @ two_digits (tm_mon t) @ ''_'' @ two_digits (tm_mday t)
       @ ''_'' @ two_digits (tm_hour t) @ two_digits (tm_min t)"

text \<open>
  The file \<^verbatim>\<open>to_excel(..., index=False)\<close> writes: its name, the header row and the data
  rows (the write itself is taken to succeed). \<^verbatim>\<open>export_sorted_df df file_name t res\<close>
  says that \<open>res\<close> is a possible outcome of the call at local time \<open>t\<close>.
\<close>

record artifact =
  file_name :: string
  header :: "string list"
  body :: "string list list"

definition export_sorted_df_body ::
  "dataframe \<Rightarrow> string \<Rightarrow> struct_time \<Rightarrow> exc + artifact \<Rightarrow> bool" where
  "export_sorted_df_body df name t res =
     (case res of
        Inl e \<Rightarrow> sort_values df ''status'' (Inl e)
      | Inr art \<Rightarrow>
          sort_values df ''status'' (Inr \<lparr>columns = header art, rows = body art\<rparr>)
          \<and> file_name art = name @ ''_'' @ datetime_string t @ ''.xlsx'')"

definition export_sorted_df ::
  "dataframe \<Rightarrow> string \<Rightarrow> struct_time \<Rightarrow> exc + artifact \<Rightarrow> bool" where
  "export_sorted_df df = timing (export_sorted_df_body df)"

subsection \<open>main\<close>

text \<open>
  The world a run meets: the network as the scrape sees it, the network as probe \<open>i\<close>
  sees it, the order in which the probes complete, and the local time at the export.
  A run is what can be observed of it: the records handed to the validator, the file
  written, and the exception that ended it, if any. \<^verbatim>\<open>main w r\<close> says that \<open>r\<close> is a
  possible run in the world \<open>w\<close>.
\<close>

record world =
  listing :: http
  probe :: "nat \<Rightarrow> http"
  completion :: "nat list"
  localtime :: struct_time

record run =
  validated :: "Proxy list"
  written :: "artifact option"
  raised :: "exc option"

definition aborted :: "Proxy list \<Rightarrow> exc \<Rightarrow> run" where
  "aborted ps e = \<lparr>validated = ps, written = None, raised = Some e\<rparr>"

text \<open>The interpreter exits with status 1 on an uncaught exception, with 0 otherwise.\<close>

definition exit_status :: "run \<Rightarrow> nat" where
  "exit_status r = (case raised r of None \<Rightarrow> 0 | Some e \<Rightarrow> 1)"

definition main_body :: "world \<Rightarrow> run \<Rightarrow> bool" where
  "main_body w r =
     (case fetch_proxies (listing w) of
        Inl e \<Rightarrow> r = aborted [] e
      | Inr proxies \<Rightarrow>
          (case dispatch (probe w) (completion w) proxies of
             None \<Rightarrow> False
           | Some (Inl e) \<Rightarrow> r = aborted proxies e
           | Some (Inr cells) \<Rightarrow>
               (case build_frame cells of
                  Inl e \<Rightarrow> r = aborted proxies e
                | Inr df \<Rightarrow>
                    validated r = proxies \<and>
                    (case (written r, raised r) of
                       (Some art, None) \<Rightarrow>
                         export_sorted_df df ''freeproxylist'' (localtime w) (Inr art)
                     | (None, Some e) \<Rightarrow>
                         export_sorted_df df ''freeproxylist'' (localtime w) (Inl e)
                     | _ \<Rightarrow> False))))"

definition main :: "world \<Rightarrow> run \<Rightarrow> bool" where
  "main = timing main_body"

section \<open>The vocabulary of the properties\<close>

text \<open>The page is unreachable when the request raises; it cannot be parsed when it has no
  table of the expected class or a row after the first has fewer than eight cells.\<close>

definition page_unreachable :: "http \<Rightarrow> bool" where
  "page_unreachable get = (case get fetch_request of Inl e \<Rightarrow> True | Inr resp \<Rightarrow> False)"

definition page_unparseable :: "http \<Rightarrow> bool" where
  "page_unparseable get =
     (case get fetch_request of
        Inl e \<Rightarrow> False
      | Inr resp \<Rightarrow>
          (case find_table (content resp) of
             None \<Rightarrow> True
           | Some table \<Rightarrow> \<exists>row\<in>set (drop 1 (table_rows table)). length row < 8))"

text \<open>A validation result as the element the loop stores, and as the row of the frame.\<close>

definition checked :: "Proxy \<times> string \<Rightarrow> cell" where
  "checked r = Checked (fst r) (snd r)"

definition result_row :: "Proxy \<times> string \<Rightarrow> string list" where
  "result_row r = astuple (fst r) @ [snd r]"

text \<open>Reading a time stamp back: what it means for a string to be a field of the
  pattern \<^verbatim>\<open>YYYY_MM_DD_HHMM\<close>.\<close>

definition is_digit :: "char \<Rightarrow> bool" where
  "is_digit c = (c \<in> set ''0123456789'')"

definition digit_value :: "char \<Rightarrow> nat" where
  "digit_value c = of_char c - 48"

definition read_decimal :: "string \<Rightarrow> nat" where
  "read_decimal s = foldl (\<lambda>a c. 10 * a + digit_value c) 0 s"

text \<open>The local times with a year of four digits.\<close>

definition valid_time :: "struct_time \<Rightarrow> bool" where
  "valid_time t \<longleftrightarrow> 1000 \<le> tm_year t \<and> tm_year t \<le> 9999 \<and> 1 \<le> tm_mon t \<and> tm_mon t \<le> 12
     \<and> 1 \<le> tm_mday t \<and> tm_mday t \<le> 31 \<and> tm_hour t \<le> 23 \<and> tm_min t \<le> 59"

text \<open>The pattern \<^verbatim>\<open>YYYY_MM_DD_HHMM\<close> for the local time \<open>t\<close>: fifteen characters, digits but
  for the three underscores, whose groups read back as the year, month, day, hour and
  minute of \<open>t\<close>.\<close>

definition is_stamp :: "struct_time \<Rightarrow> string \<Rightarrow> bool" where
  "is_stamp t s \<longleftrightarrow>
     length s = 15 \<and> s ! 4 = CHR ''_'' \<and> s ! 7 = CHR ''_'' \<and> s ! 10 = CHR ''_''
     \<and> list_all is_digit (take 4 s @ take 2 (drop 5 s) @ take 2 (drop 8 s) @ drop 11 s)
     \<and> read_decimal (take 4 s) = tm_year t
     \<and> read_decimal (take 2 (drop 5 s)) = tm_mon t
     \<and> read_decimal (take 2 (drop 8 s)) = tm_mday t
     \<and> read_decimal (take 2 (drop 11 s)) = tm_hour t
     \<and> read_decimal (drop 13 s) = tm_min t"

section \<open>Sample values\<close>

text \<open>A sample record and sample behaviours of the network, for the examples below.\<close>

definition sample_proxy :: "string \<Rightarrow> Proxy" where
  "sample_proxy a =
     \<lparr>ip = a, port = ''8080'', country = ''Canada'', anonymity = ''anonymous'',
      https = ''yes'', last_checked = ''1 min ago''\<rparr>"

definition responds :: "int \<Rightarrow> http" where
  "responds code = (\<lambda>_. Inr \<lparr>status_code = code, content = []\<rparr>)"

definition raises :: "exc \<Rightarrow> http" where
  "raises e = (\<lambda>_. Inl e)"

text \<open>The network of the scenario: the first probe times out, the second gets 200, every
  later one gets 404.\<close>

definition sample_gets :: "nat \<Rightarrow> http" where
  "sample_gets i =
     (if i = 0 then raises (RequestException ReadTimeout)
      else if i = 1 then responds 200 else responds 404)"

definition sample_time :: struct_time where
  "sample_time =
     \<lparr>tm_year = 2022, tm_mon = 9, tm_mday = 5, tm_hour = 14, tm_min = 7, tm_sec = 30\<rparr>"

definition sample_tr :: "string \<Rightarrow> string list" where
  "sample_tr a =
     [a, ''8080'', ''CA'', ''Canada'', ''anonymous'', ''no'', ''yes'', ''1 min ago'']"

definition sample_page :: "string list list \<Rightarrow> http" where
  "sample_page trs =
     (\<lambda>_. Inr \<lparr>status_code = 200,
        content = [\<lparr>table_class = ''table table-striped table-bordered'',
                    table_rows = trs\<rparr>]\<rparr>)"

text \<open>A world whose listing has the given \<^verbatim>\<open>tr\<close> rows (the first is the header row) and
  whose probes complete last first.\<close>

definition sample_world :: "string list list \<Rightarrow> world" where
  "sample_world trs =
     \<lparr>listing = sample_page trs, probe = sample_gets, completion = rev [0..<length trs - 1],
      localtime = sample_time\<rparr>"

text \<open>Two records of which the second probe runs out of memory.\<close>

definition sample_fatal_gets :: "nat \<Rightarrow> http" where
  "sample_fatal_gets i =
     (if i = 1 then raises (OtherException ''MemoryError'') else responds 200)"

text \<open>
  Sample results. The scenario A (not working), B (working), C (not working) in input
  order, in the reverse order, and in the two working-first orders. For longer lists,
  \<open>probed up names\<close> has one result per character of \<open>names\<close>, working for the
  characters of \<open>up\<close>.
\<close>

definition sample_results :: "(Proxy \<times> string) list" where
  "sample_results =
     [(sample_proxy ''A'', ''not working''), (sample_proxy ''B'', ''working''),
      (sample_proxy ''C'', ''not working'')]"

definition sample_reversed :: "(Proxy \<times> string) list" where
  "sample_reversed =
     [(sample_proxy ''C'', ''not working''), (sample_proxy ''B'', ''working''),
      (sample_proxy ''A'', ''not working'')]"

definition sample_sorted_results :: "(Proxy \<times> string) list" where
  "sample_sorted_results =
     [(sample_proxy ''B'', ''working''), (sample_proxy ''A'', ''not working''),
      (sample_proxy ''C'', ''not working'')]"

definition sample_swapped :: "(Proxy \<times> string) list" where
  "sample_swapped =
     [(sample_proxy ''B'', ''working''), (sample_proxy ''C'', ''not working''),
      (sample_proxy ''A'', ''not working'')]"

definition probed :: "string \<Rightarrow> string \<Rightarrow> (Proxy \<times> string) list" where
  "probed up names =
     map (\<lambda>c. (sample_proxy [c], if c \<in> set up then ''working'' else ''not working'')) names"

definition sample_frame :: "(Proxy \<times> string) list \<Rightarrow> dataframe" where
  "sample_frame rs = \<lparr>columns = Proxy_fields @ [''status''], rows = map result_row rs\<rparr>"

definition sample_artifact :: "(Proxy \<times> string) list \<Rightarrow> artifact" where
  "sample_artifact rs =
     \<lparr>file_name = ''freeproxylist_2022_09_05_1407.xlsx'',
      header = Proxy_fields @ [''status''], body = map result_row rs\<rparr>"

text \<open>A whole run: the listing has the rows A, B, C, the probes complete C, B, A, and
  the file holds B, A, C.\<close>

definition sample_listing :: "string list list" where
  "sample_listing = [[], sample_tr ''A'', sample_tr ''B'', sample_tr ''C'']"

definition sample_run :: run where
  "sample_run =
     \<lparr>validated = map fst sample_results,
      written = Some (sample_artifact sample_sorted_results), raised = None\<rparr>"

section \<open>Properties\<close>

subsection \<open>Properties of check_proxy\<close>

lemma check_proxy_simps:
  "check_proxy get proxy =
     (case get (probe_request proxy) of
        Inr resp \<Rightarrow>
          if status_code resp = 200 then Inr (proxy, ''working'')
          else Inr (proxy, ''not working'')
      | Inl e \<Rightarrow>
          if is_RequestException e then Inr (proxy, ''not working'')
          else Inl e)"
  by (simp add: check_proxy_def timing_def check_proxy_body_def)

text \<open>
  Claim C2. \<^verbatim>\<open>check_proxy\<close> returns the status \<^verbatim>\<open>"working"\<close> if and only if the probe
  returns a response whose status code is exactly 200; a response with any other code,
  and every exception of the \<^verbatim>\<open>RequestException\<close> family (timeout, DNS failure,
  connection reset, TLS failure, proxy refusal), gives the pair of the record and
  \<^verbatim>\<open>"not working"\<close>.
\<close>

theorem check_proxy_working_iff_200:
  "((\<exists>q. check_proxy get p = Inr (q, ''working'')) \<longleftrightarrow>
      (\<exists>resp. get (probe_request p) = Inr resp \<and> status_code resp = 200))
   \<and> (\<forall>resp. get (probe_request p) = Inr resp \<longrightarrow> status_code resp \<noteq> 200 \<longrightarrow>
         check_proxy get p = Inr (p, ''not working''))
   \<and> (\<forall>f. get (probe_request p) = Inl (RequestException f) \<longrightarrow>
         check_proxy get p = Inr (p, ''not working''))"
  by (auto simp: check_proxy_simps split: sum.splits if_splits)

theorem check_proxy_working_iff_200_witness:
  "(\<exists>q. check_proxy (responds 200) (sample_proxy ''10.0.0.1'') = Inr (q, ''working''))
   \<and> check_proxy (responds 404) (sample_proxy ''10.0.0.1'')
       = Inr (sample_proxy ''10.0.0.1'', ''not working'')
   \<and> check_proxy (raises (RequestException ReadTimeout)) (sample_proxy ''10.0.0.1'')
       = Inr (sample_proxy ''10.0.0.1'', ''not working'')"
  using check_proxy_working_iff_200 [of "responds 200" "sample_proxy ''10.0.0.1''"]
    check_proxy_working_iff_200 [of "responds 404" "sample_proxy ''10.0.0.1''"]
    check_proxy_working_iff_200
      [of "raises (RequestException ReadTimeout)" "sample_proxy ''10.0.0.1''"]
  by (simp add: responds_def raises_def)

text \<open>
  Claim C10. Whenever \<^verbatim>\<open>check_proxy(p)\<close> returns a pair, its first component is \<open>p\<close>
  itself, so all six fields are unchanged, and its second component is one of the two
  strings \<^verbatim>\<open>"working"\<close> and \<^verbatim>\<open>"not working"\<close>; each of the two is returned for some
  behaviour of the network.
\<close>

theorem check_proxy_returns_its_argument:
  assumes "check_proxy get p = Inr (q, s)"
  shows "q = p \<and> ip q = ip p \<and> port q = port p \<and> country q = country p
     \<and> anonymity q = anonymity p \<and> https q = https p \<and> last_checked q = last_checked p
     \<and> (s = ''working'' \<or> s = ''not working'')
     \<and> (\<exists>g. check_proxy g p = Inr (p, ''working''))
     \<and> (\<exists>g. check_proxy g p = Inr (p, ''not working''))"
proof -
  from assms have "q = p" and "s = ''working'' \<or> s = ''not working''"
    by (auto simp: check_proxy_simps split: sum.splits if_splits)
  moreover have "check_proxy (responds 200) p = Inr (p, ''working'')"
    by (simp add: check_proxy_simps responds_def)
  moreover have "check_proxy (responds 404) p = Inr (p, ''not working'')"
    by (simp add: check_proxy_simps responds_def)
  ultimately show ?thesis by blast
qed

theorem check_proxy_returns_its_argument_witness:
  "check_proxy (responds 200) (sample_proxy ''10.0.0.3'')
     = Inr (sample_proxy ''10.0.0.3'', ''working'')
   \<and> ip (sample_proxy ''10.0.0.3'') = ''10.0.0.3''
   \<and> (\<exists>g. check_proxy g (sample_proxy ''10.0.0.3'')
          = Inr (sample_proxy ''10.0.0.3'', ''not working''))"
proof -
  have r: "check_proxy (responds 200) (sample_proxy ''10.0.0.3'')
     = Inr (sample_proxy ''10.0.0.3'', ''working'')"
    by (simp add: check_proxy_simps responds_def)
  from check_proxy_returns_its_argument [OF r] r show ?thesis
    by (simp add: sample_proxy_def)
qed

subsection \<open>The futures of the pool\<close>

lemma length_foldl_run_task:
  "length (foldl (run_task gets ps) fs sched) = length fs"
  by (induction sched arbitrary: fs) (auto simp: run_task_def)

lemma nth_foldl_run_task:
  assumes "i < length fs" and "length fs = length ps"
  shows "foldl (run_task gets ps) fs sched ! i =
     (if i \<in> set sched then Some (check_proxy (gets i) (ps ! i)) else fs ! i)"
  using assms
proof (induction sched arbitrary: fs)
  case Nil
  then show ?case by simp
next
  case (Cons j sched)
  have len: "length (run_task gets ps fs j) = length ps"
    using Cons.prems by (simp add: run_task_def)
  have step: "run_task gets ps fs j ! i =
      (if i = j then Some (check_proxy (gets i) (ps ! i)) else fs ! i)"
    using Cons.prems by (auto simp: run_task_def)
  from Cons.IH [of "run_task gets ps fs j"] Cons.prems len step
  show ?case by auto
qed

text \<open>Once every task has finished, future \<open>i\<close> holds the outcome of task \<open>i\<close>, whatever
  the order of completion was.\<close>

lemma run_pool_complete:
  assumes "set sched = {0..<length ps}"
  shows "run_pool gets sched ps =
     map (\<lambda>i. Some (check_proxy (gets i) (ps ! i))) [0..<length ps]"
proof (rule nth_equalityI)
  show "length (run_pool gets sched ps) =
      length (map (\<lambda>i. Some (check_proxy (gets i) (ps ! i))) [0..<length ps])"
    by (simp add: run_pool_def length_foldl_run_task submit_all_def)
next
  fix i assume "i < length (run_pool gets sched ps)"
  then have i: "i < length ps"
    by (simp add: run_pool_def length_foldl_run_task submit_all_def)
  then show "run_pool gets sched ps ! i =
      map (\<lambda>i. Some (check_proxy (gets i) (ps ! i))) [0..<length ps] ! i"
    using assms by (simp add: run_pool_def submit_all_def nth_foldl_run_task)
qed

lemma check_proxy_returns_when_not_fatal:
  assumes "\<forall>e. get (probe_request p) = Inl e \<longrightarrow> is_RequestException e"
  shows "\<exists>s. check_proxy get p = Inr (p, s)"
proof (cases "get (probe_request p)")
  case (Inl e)
  with assms have "is_RequestException e" by simp
  with Inl show ?thesis by (simp add: check_proxy_simps)
next
  case (Inr resp)
  then show ?thesis by (simp add: check_proxy_simps)
qed

text \<open>The loop, started at index \<open>i\<close> on futures that all hold a returned pair: it ends, it
  leaves the elements below \<open>i\<close> alone and it writes a pair at every index from \<open>i\<close> on.\<close>

lemma dispatch_loop_all_returned:
  assumes "length proxies = n" and "i + length fs = n"
    and "\<forall>k<length fs. \<exists>s. fs ! k = Some (Inr (ps ! (i + k), s))"
  shows "\<exists>cells. dispatch_loop proxies i fs = Some (Inr cells) \<and> length cells = n
     \<and> (\<forall>k<i. cells ! k = proxies ! k)
     \<and> (\<forall>k. i \<le> k \<and> k < n \<longrightarrow> (\<exists>s. cells ! k = Checked (ps ! k) s))"
  using assms
proof (induction fs arbitrary: proxies i)
  case Nil
  then show ?case by auto
next
  case (Cons f fs)
  from Cons.prems(3) obtain s where f: "f = Some (Inr (ps ! i, s))"
    by fastforce
  let ?proxies = "proxies[i := Checked (ps ! i) s]"
  have tail: "\<forall>k<length fs. \<exists>s. fs ! k = Some (Inr (ps ! (Suc i + k), s))"
  proof (intro allI impI)
    fix k assume "k < length fs"
    then have "Suc k < length (f # fs)" by simp
    with Cons.prems(3) obtain s' where "(f # fs) ! Suc k = Some (Inr (ps ! (i + Suc k), s'))"
      by blast
    then show "\<exists>s. fs ! k = Some (Inr (ps ! (Suc i + k), s))" by simp
  qed
  from Cons.prems have len: "length ?proxies = n" and idx: "Suc i + length fs = n"
    by simp_all
  from Cons.IH [OF len idx tail] obtain cells where
    c: "dispatch_loop ?proxies (Suc i) fs = Some (Inr cells)" "length cells = n"
      "\<forall>k<Suc i. cells ! k = ?proxies ! k"
      "\<forall>k. Suc i \<le> k \<and> k < n \<longrightarrow> (\<exists>s. cells ! k = Checked (ps ! k) s)"
    by blast
  have i: "i < length proxies" using Cons.prems by simp
  have "\<forall>k<i. cells ! k = proxies ! k"
    using c(3) by simp
  moreover have "cells ! i = Checked (ps ! i) s"
    using c(3) i by simp
  then have "\<forall>k. i \<le> k \<and> k < n \<longrightarrow> (\<exists>s. cells ! k = Checked (ps ! k) s)"
    using c(4) by (metis Suc_leI le_neq_implies_less)
  ultimately show ?case using c(1,2) f by simp
qed

subsection \<open>Failure of the fetch\<close>

lemma parse_row_ok:
  assumes "8 \<le> length cols"
  shows "parse_row cols = Inr \<lparr>ip = cols ! 0, port = cols ! 1, country = cols ! 3,
     anonymity = cols ! 4, https = cols ! 6, last_checked = cols ! 7\<rparr>"
  using assms by (auto simp: parse_row_def item_def)

lemma parse_row_short:
  assumes "length cols < 8"
  shows "parse_row cols = Inl IndexError"
  using assms by (simp add: parse_row_def item_def split: sum.splits)

lemma parse_rows_fails_iff:
  "(\<exists>e. parse_rows trs acc = Inl e) \<longleftrightarrow> (\<exists>row\<in>set trs. length row < 8)"
proof (induction trs arbitrary: acc)
  case Nil
  show ?case by simp
next
  case (Cons row trs)
  show ?case
  proof (cases "length row < 8")
    case True
    then show ?thesis by (simp add: parse_row_short)
  next
    case False
    then have "8 \<le> length row" by simp
    then show ?thesis using Cons.IH by (simp add: parse_row_ok)
  qed
qed

lemma fetch_proxies_fails_iff:
  "(\<exists>e. fetch_proxies get = Inl e) \<longleftrightarrow> page_unreachable get \<or> page_unparseable get"
  using parse_rows_fails_iff
  by (auto simp: fetch_proxies_def page_unreachable_def page_unparseable_def
      split: sum.splits option.splits)

lemma main_fetch_failed:
  assumes "fetch_proxies (listing w) = Inl e"
  shows "main w r \<longleftrightarrow> r = aborted [] e"
  using assms by (simp add: main_def timing_def main_body_def)

text \<open>
  Claim C8. If the listing page is unreachable or cannot be parsed, \<^verbatim>\<open>fetch_proxies\<close>
  raises, and the only run of \<^verbatim>\<open>main\<close> is the one that ends with that exception: no
  record is validated, no file is written, and the exit status is 1.
\<close>

theorem fetch_failure_is_fatal:
  assumes "page_unreachable (listing w) \<or> page_unparseable (listing w)"
  shows "\<exists>e. fetch_proxies (listing w) = Inl e
     \<and> (\<forall>r. main w r \<longleftrightarrow> r = \<lparr>validated = [], written = None, raised = Some e\<rparr>)
     \<and> exit_status \<lparr>validated = [], written = None, raised = Some e\<rparr> = 1"
proof -
  from assms obtain e where e: "fetch_proxies (listing w) = Inl e"
    using fetch_proxies_fails_iff by blast
  have "\<forall>r. main w r \<longleftrightarrow> r = \<lparr>validated = [], written = None, raised = Some e\<rparr>"
    using main_fetch_failed [OF e] by (simp add: aborted_def)
  moreover have "exit_status \<lparr>validated = [], written = None, raised = Some e\<rparr> = 1"
    by (simp add: exit_status_def)
  ultimately show ?thesis using e by blast
qed

theorem fetch_failure_is_fatal_witness:
  "(\<exists>e. fetch_proxies (listing ((sample_world [])
            \<lparr>listing := raises (RequestException ConnectionError)\<rparr>)) = Inl e
      \<and> (\<forall>r. main ((sample_world []) \<lparr>listing := raises (RequestException ConnectionError)\<rparr>) r
            \<longleftrightarrow> r = \<lparr>validated = [], written = None, raised = Some e\<rparr>)
      \<and> exit_status \<lparr>validated = [], written = None, raised = Some e\<rparr> = 1)
   \<and> (\<exists>e. fetch_proxies (listing (sample_world [[], sample_tr ''A'', [''B'', ''8080'']])) = Inl e
      \<and> (\<forall>r. main (sample_world [[], sample_tr ''A'', [''B'', ''8080'']]) r
            \<longleftrightarrow> r = \<lparr>validated = [], written = None, raised = Some e\<rparr>)
      \<and> exit_status \<lparr>validated = [], written = None, raised = Some e\<rparr> = 1)"
proof -
  let ?down = "(sample_world []) \<lparr>listing := raises (RequestException ConnectionError)\<rparr>"
  let ?broken = "sample_world [[], sample_tr ''A'', [''B'', ''8080'']]"
  have "page_unreachable (listing ?down)"
    by (simp add: page_unreachable_def raises_def)
  then have down: "page_unreachable (listing ?down) \<or> page_unparseable (listing ?down)"
    by simp
  have "page_unparseable (listing ?broken)"
    by (simp add: page_unparseable_def sample_world_def sample_page_def find_table_def)
  then have broken: "page_unreachable (listing ?broken) \<or> page_unparseable (listing ?broken)"
    by simp
  from fetch_failure_is_fatal [OF down] fetch_failure_is_fatal [OF broken]
  show ?thesis by (rule conjI)
qed

subsection \<open>What the loop leaves in the list\<close>

lemma dispatch_loop_Inr:
  assumes "dispatch_loop proxies i fs = Some (Inr cells)"
    and "i + length fs = length proxies"
  shows "length cells = length proxies \<and> (\<forall>k<i. cells ! k = proxies ! k)
     \<and> (\<forall>k<length fs. \<exists>p s. fs ! k = Some (Inr (p, s)) \<and> cells ! (i + k) = Checked p s)"
  using assms
proof (induction proxies i fs rule: dispatch_loop.induct)
  case (1 proxies i)
  then show ?case by simp
next
  case (2 proxies i fs)
  then show ?case by simp
next
  case (3 proxies i e fs)
  then show ?case by simp
next
  case (4 proxies i proxy status fs)
  let ?proxies = "proxies[i := Checked proxy status]"
  from "4.prems" have run: "dispatch_loop ?proxies (Suc i) fs = Some (Inr cells)"
    and len: "Suc i + length fs = length ?proxies"
    by simp_all
  from "4.IH" [OF run len] have
    l: "length cells = length proxies"
    and low: "\<forall>k<Suc i. cells ! k = ?proxies ! k"
    and high: "\<forall>k<length fs. \<exists>p s. fs ! k = Some (Inr (p, s)) \<and> cells ! (Suc i + k) = Checked p s"
    by simp_all
  from "4.prems"(2) have i: "i < length proxies" by simp
  from low i have here: "cells ! i = Checked proxy status" by simp
  have "\<exists>p s. (Some (Inr (proxy, status)) # fs) ! k = Some (Inr (p, s))
      \<and> cells ! (i + k) = Checked p s" if "k < length (Some (Inr (proxy, status)) # fs)" for k
  proof (cases k)
    case 0
    with here show ?thesis by simp
  next
    case (Suc k')
    with that have "k' < length fs" by simp
    with high Suc show ?thesis by simp
  qed
  moreover from low have "\<forall>k<i. cells ! k = proxies ! k" by simp
  ultimately show ?case using l by blast
qed

lemma run_pool_nth:
  assumes "k < length ps"
  shows "run_pool gets sched ps ! k =
     (if k \<in> set sched then Some (check_proxy (gets k) (ps ! k)) else None)"
  using assms by (simp add: run_pool_def submit_all_def nth_foldl_run_task)

lemma length_run_pool: "length (run_pool gets sched ps) = length ps"
  by (simp add: run_pool_def submit_all_def length_foldl_run_task)

lemma check_proxy_Inr_fst: "check_proxy get p = Inr (q, s) \<Longrightarrow> q = p"
  by (auto simp: check_proxy_simps split: sum.splits if_splits)

text \<open>Whenever the loop ends without an exception, every element of the list is a pair,
  and the pair at index \<open>k\<close> is the one \<^verbatim>\<open>check_proxy\<close> returned for input \<open>k\<close>: that input
  itself with the status of its own probe.\<close>

lemma dispatch_Inr:
  assumes "dispatch gets sched ps = Some (Inr cells)"
  shows "length cells = length ps
     \<and> (\<forall>k<length ps. \<exists>s. check_proxy (gets k) (ps ! k) = Inr (ps ! k, s)
            \<and> cells ! k = Checked (ps ! k) s)"
proof -
  from assms have run:
    "dispatch_loop (map Unchecked ps) 0 (run_pool gets sched ps) = Some (Inr cells)"
    by (simp add: dispatch_def)
  have len: "0 + length (run_pool gets sched ps) = length (map Unchecked ps)"
    by (simp add: length_run_pool)
  from dispatch_loop_Inr [OF run len] have l: "length cells = length ps"
    and c: "\<forall>k<length ps. \<exists>p s. run_pool gets sched ps ! k = Some (Inr (p, s))
        \<and> cells ! k = Checked p s"
    by (simp_all add: length_run_pool)
  have "\<exists>s. check_proxy (gets k) (ps ! k) = Inr (ps ! k, s) \<and> cells ! k = Checked (ps ! k) s"
    if k: "k < length ps" for k
  proof -
    from c k obtain p s where f: "run_pool gets sched ps ! k = Some (Inr (p, s))"
      and cell: "cells ! k = Checked p s"
      by blast
    from f k have r: "check_proxy (gets k) (ps ! k) = Inr (p, s)"
      by (simp add: run_pool_nth split: if_splits)
    then have "p = ps ! k" by (rule check_proxy_Inr_fst)
    with cell r show ?thesis by simp
  qed
  with l show ?thesis by simp
qed

lemma dispatch_Inr_checked:
  assumes "dispatch gets sched ps = Some (Inr cells)"
  shows "\<exists>rs. cells = map checked rs \<and> map fst rs = ps"
proof -
  from dispatch_Inr [OF assms] have l: "length cells = length ps"
    and c: "\<forall>k<length ps. \<exists>s. cells ! k = Checked (ps ! k) s"
    by blast+
  from c obtain st where st: "\<forall>k<length ps. cells ! k = Checked (ps ! k) (st k)"
    by metis
  let ?rs = "map (\<lambda>k. (ps ! k, st k)) [0..<length ps]"
  have "cells = map checked ?rs"
    using l st by (intro nth_equalityI) (simp_all add: checked_def)
  moreover have "map fst ?rs = ps"
    by (intro nth_equalityI) simp_all
  ultimately show ?thesis by blast
qed

lemma dispatch_empty: "dispatch gets sched [] = Some (Inr [])"
proof -
  have "length (run_pool gets sched []) = 0" by (simp add: length_run_pool)
  then have "run_pool gets sched [] = []" by simp
  then show ?thesis by (simp add: dispatch_def)
qed

lemma unzip_checked:
  assumes "rs \<noteq> []"
  shows "unzip (map checked rs) = Inr (map fst rs, map snd rs)"
proof -
  have "[p. Checked p s \<leftarrow> map checked rs] = map fst rs"
    by (induction rs) (simp_all add: checked_def)
  moreover have "[s. Checked p s \<leftarrow> map checked rs] = map snd rs"
    by (induction rs) (simp_all add: checked_def)
  ultimately show ?thesis using assms by (simp add: unzip_def)
qed

lemma build_frame_checked:
  assumes "rs \<noteq> []"
  shows "build_frame (map checked rs) =
     Inr \<lparr>columns = Proxy_fields @ [''status''], rows = map result_row rs\<rparr>"
proof -
  have "map2 (\<lambda>r s. r @ [s]) (map astuple (map fst rs)) (map snd rs) = map result_row rs"
    by (induction rs) (simp_all add: result_row_def)
  with assms show ?thesis
    by (simp add: build_frame_def unzip_checked DataFrame_def set_status_def)
qed

lemma build_frame_empty: "build_frame [] = Inl ValueError"
  by (simp add: build_frame_def unzip_def)

lemma status_column: "index_of ''status'' (Proxy_fields @ [''status'']) = Some 6"
  by (simp add: Proxy_fields_def)

subsection \<open>Order preservation\<close>

text \<open>
  Claim C1. For every input list of \<open>N\<close> records and every order in which the \<open>N\<close> probes
  complete, the dispatch returns exactly \<open>N\<close> results, and result \<open>i\<close> is the validation
  result of input \<open>i\<close>: the pair \<^verbatim>\<open>check_proxy\<close> returned for input \<open>i\<close>, that is input \<open>i\<close>
  itself with the status of its own probe. The dispatch returns when no probe raises an
  exception outside the \<^verbatim>\<open>RequestException\<close> family (such an exception ends \<^verbatim>\<open>main\<close>,
  as claim C3 says).
\<close>

theorem dispatch_preserves_order:
  assumes "mset sched = mset [0..<length ps]"
    and "\<forall>i<length ps. \<forall>e. gets i (probe_request (ps ! i)) = Inl e \<longrightarrow> is_RequestException e"
  shows "\<exists>cells. dispatch gets sched ps = Some (Inr cells) \<and> length cells = length ps
     \<and> (\<forall>i<length ps. \<exists>s. check_proxy (gets i) (ps ! i) = Inr (ps ! i, s)
            \<and> cells ! i = Checked (ps ! i) s)"
proof -
  from assms(1) have "set_mset (mset sched) = set_mset (mset [0..<length ps])"
    by simp
  then have "set sched = {0..<length ps}"
    by simp
  then have pool: "run_pool gets sched ps =
      map (\<lambda>i. Some (check_proxy (gets i) (ps ! i))) [0..<length ps]"
    by (rule run_pool_complete)
  have fin: "\<forall>k<length (run_pool gets sched ps).
      \<exists>s. run_pool gets sched ps ! k = Some (Inr (ps ! (0 + k), s))"
  proof (intro allI impI)
    fix k assume "k < length (run_pool gets sched ps)"
    then have k: "k < length ps" by (simp add: pool)
    with assms(2) have "\<forall>e. gets k (probe_request (ps ! k)) = Inl e \<longrightarrow> is_RequestException e"
      by blast
    then have "\<exists>s. check_proxy (gets k) (ps ! k) = Inr (ps ! k, s)"
      by (rule check_proxy_returns_when_not_fatal)
    with k show "\<exists>s. run_pool gets sched ps ! k = Some (Inr (ps ! (0 + k), s))"
      by (simp add: pool)
  qed
  have len: "length (map Unchecked ps) = length ps" by simp
  have idx: "0 + length (run_pool gets sched ps) = length ps" by (simp add: pool)
  from dispatch_loop_all_returned [OF len idx fin]
  have "\<exists>cells. dispatch_loop (map Unchecked ps) 0 (run_pool gets sched ps) = Some (Inr cells)"
    by (elim exE conjE) (rule exI)
  then obtain cells where returned: "dispatch gets sched ps = Some (Inr cells)"
    by (auto simp: dispatch_def)
  from dispatch_Inr [OF returned] returned show ?thesis
    by simp
qed

theorem dispatch_preserves_order_witness:
  "dispatch sample_gets [2, 0, 1] [sample_proxy ''A'', sample_proxy ''B'', sample_proxy ''C'']
     = Some (Inr [Checked (sample_proxy ''A'') ''not working'',
                  Checked (sample_proxy ''B'') ''working'',
                  Checked (sample_proxy ''C'') ''not working''])"
proof -
  let ?ps = "[sample_proxy ''A'', sample_proxy ''B'', sample_proxy ''C'']"
  have order: "mset [2, 0, 1] = mset [0..<length ?ps]"
    by (simp add: upt_rec)
  have net: "\<forall>i<length ?ps. \<forall>e. sample_gets i (probe_request (?ps ! i)) = Inl e
      \<longrightarrow> is_RequestException e"
    by (auto simp: sample_gets_def raises_def responds_def)
  from dispatch_preserves_order
      [where sched = "[2, 0, 1]" and ps = ?ps and gets = sample_gets, OF order net]
  obtain cells where c: "dispatch sample_gets [2, 0, 1] ?ps = Some (Inr cells)"
      "length cells = length ?ps"
      "\<forall>i<length ?ps. \<exists>s. check_proxy (sample_gets i) (?ps ! i) = Inr (?ps ! i, s)
          \<and> cells ! i = Checked (?ps ! i) s"
    by (elim exE conjE)
  from c(3) [rule_format, of 0]
  have r0: "cells ! 0 = Checked (sample_proxy ''A'') ''not working''"
    by (auto simp: check_proxy_simps sample_gets_def raises_def)
  from c(3) [rule_format, of 1]
  have r1: "cells ! 1 = Checked (sample_proxy ''B'') ''working''"
    by (auto simp: check_proxy_simps sample_gets_def responds_def)
  from c(3) [rule_format, of 2]
  have r2: "cells ! 2 = Checked (sample_proxy ''C'') ''not working''"
    by (auto simp: check_proxy_simps sample_gets_def responds_def)
  from c(2) have "length cells = 3" by simp
  then obtain x y z where "cells = [x, y, z]"
    by (auto simp: length_Suc_conv numeral_3_eq_3)
  with r0 r1 r2 have "cells = [Checked (sample_proxy ''A'') ''not working'',
      Checked (sample_proxy ''B'') ''working'', Checked (sample_proxy ''C'') ''not working'']"
    by simp
  with c(1) show ?thesis by simp
qed

subsection \<open>Exceptions of the probe\<close>

lemma check_proxy_Inl:
  "check_proxy get p = Inl e \<longleftrightarrow> get (probe_request p) = Inl e \<and> \<not> is_RequestException e"
  by (auto simp: check_proxy_simps split: sum.splits if_splits)

text \<open>When every task has finished and one of them raised, the loop ends with the
  exception of one of the tasks (the first in input order).\<close>

lemma dispatch_loop_raised:
  assumes "None \<notin> set fs" and "\<exists>e. Some (Inl e) \<in> set fs"
  shows "\<exists>e. dispatch_loop proxies i fs = Some (Inl e) \<and> Some (Inl e) \<in> set fs"
  using assms
proof (induction proxies i fs rule: dispatch_loop.induct)
  case (1 proxies i)
  then show ?case by simp
next
  case (2 proxies i fs)
  then show ?case by simp
next
  case (3 proxies i e fs)
  then show ?case by simp
next
  case (4 proxies i proxy status fs)
  from "4.prems" have "None \<notin> set fs" and "\<exists>e. Some (Inl e) \<in> set fs"
    by auto
  from "4.IH" [OF this] show ?case by auto
qed

lemma dispatch_fatal:
  assumes "mset sched = mset [0..<length ps]" and "k < length ps"
    and "gets k (probe_request (ps ! k)) = Inl e" and "\<not> is_RequestException e"
  shows "\<exists>e'. dispatch gets sched ps = Some (Inl e') \<and> \<not> is_RequestException e'"
proof -
  from assms(1) have "set_mset (mset sched) = set_mset (mset [0..<length ps])"
    by simp
  then have "set sched = {0..<length ps}"
    by simp
  then have pool: "run_pool gets sched ps =
      map (\<lambda>i. Some (check_proxy (gets i) (ps ! i))) [0..<length ps]"
    by (rule run_pool_complete)
  then have none: "None \<notin> set (run_pool gets sched ps)"
    by auto
  from assms(3,4) have "check_proxy (gets k) (ps ! k) = Inl e"
    by (simp add: check_proxy_Inl)
  with assms(2) have "Some (Inl e) \<in> set (run_pool gets sched ps)"
    unfolding pool by (simp add: image_iff) (metis atLeastLessThan_iff zero_le)
  then have "\<exists>e. Some (Inl e) \<in> set (run_pool gets sched ps)" ..
  from dispatch_loop_raised [OF none this] obtain e' where
    d: "dispatch_loop (map Unchecked ps) 0 (run_pool gets sched ps) = Some (Inl e')"
    and m: "Some (Inl e') \<in> set (run_pool gets sched ps)"
    by blast
  from m obtain j where "check_proxy (gets j) (ps ! j) = Inl e'"
    unfolding pool by auto
  then have "\<not> is_RequestException e'"
    by (simp add: check_proxy_Inl)
  with d show ?thesis by (auto simp: dispatch_def)
qed

text \<open>
  Claim C3. No exception of the \<^verbatim>\<open>RequestException\<close> family leaves \<^verbatim>\<open>check_proxy\<close>:
  each is caught and turned into the \<^verbatim>\<open>"not working"\<close> result. An exception of any
  other class raised by the probe leaves \<^verbatim>\<open>check_proxy\<close> as it is, and it ends the
  batch: whatever the order of completion, the dispatch loop then raises such an
  exception instead of returning results.
\<close>

theorem check_proxy_catches_only_request_exceptions:
  "(\<forall>e. check_proxy get p = Inl e \<longrightarrow> \<not> is_RequestException e)
   \<and> (\<forall>e. get (probe_request p) = Inl e \<longrightarrow> is_RequestException e \<longrightarrow>
         check_proxy get p = Inr (p, ''not working''))
   \<and> (\<forall>e. get (probe_request p) = Inl e \<longrightarrow> \<not> is_RequestException e \<longrightarrow>
         check_proxy get p = Inl e)
   \<and> (\<forall>gets sched ps k e. mset sched = mset [0..<length ps] \<longrightarrow> k < length ps \<longrightarrow>
         gets k (probe_request (ps ! k)) = Inl e \<longrightarrow> \<not> is_RequestException e \<longrightarrow>
         (\<exists>e'. dispatch gets sched ps = Some (Inl e') \<and> \<not> is_RequestException e'))"
proof (intro conjI allI impI)
  fix e assume "check_proxy get p = Inl e"
  then show "\<not> is_RequestException e" by (simp add: check_proxy_Inl)
next
  fix e assume "get (probe_request p) = Inl e" and "is_RequestException e"
  then show "check_proxy get p = Inr (p, ''not working'')" by (simp add: check_proxy_simps)
next
  fix e assume "get (probe_request p) = Inl e" and "\<not> is_RequestException e"
  then show "check_proxy get p = Inl e" by (simp add: check_proxy_Inl)
next
  fix gets :: "nat \<Rightarrow> http" and sched ps k e
  assume "mset sched = mset [0..<length ps]" and "k < length ps"
    and "gets k (probe_request (ps ! k)) = Inl e" and "\<not> is_RequestException e"
  then show "\<exists>e'. dispatch gets sched ps = Some (Inl e') \<and> \<not> is_RequestException e'"
    by (rule dispatch_fatal)
qed

theorem check_proxy_catches_only_request_exceptions_witness:
  "check_proxy (raises (RequestException ProxyError)) (sample_proxy ''10.0.0.2'')
     = Inr (sample_proxy ''10.0.0.2'', ''not working'')
   \<and> check_proxy (raises (OtherException ''MemoryError'')) (sample_proxy ''10.0.0.2'')
     = Inl (OtherException ''MemoryError'')
   \<and> (\<exists>e'. dispatch sample_fatal_gets [1, 0] [sample_proxy ''A'', sample_proxy ''B'']
          = Some (Inl e') \<and> \<not> is_RequestException e')"
proof -
  let ?ps = "[sample_proxy ''A'', sample_proxy ''B'']"
  note caught = check_proxy_catches_only_request_exceptions
      [of "raises (RequestException ProxyError)" "sample_proxy ''10.0.0.2''"]
  note passed = check_proxy_catches_only_request_exceptions
      [of "raises (OtherException ''MemoryError'')" "sample_proxy ''10.0.0.2''"]
  have order: "mset [1, 0] = mset [0..<length ?ps]"
    by (simp add: upt_rec)
  have k: "(1::nat) < length ?ps"
    by simp
  have raised: "sample_fatal_gets 1 (probe_request (?ps ! 1)) = Inl (OtherException ''MemoryError'')"
    by (simp add: sample_fatal_gets_def raises_def)
  have fatal: "\<not> is_RequestException (OtherException ''MemoryError'')"
    by simp
  from passed order k raised fatal
  have "\<exists>e'. dispatch sample_fatal_gets [1, 0] ?ps = Some (Inl e') \<and> \<not> is_RequestException e'"
    by blast
  moreover from caught
  have "check_proxy (raises (RequestException ProxyError)) (sample_proxy ''10.0.0.2'')
      = Inr (sample_proxy ''10.0.0.2'', ''not working'')"
    by (simp add: raises_def)
  moreover from passed
  have "check_proxy (raises (OtherException ''MemoryError'')) (sample_proxy ''10.0.0.2'')
      = Inl (OtherException ''MemoryError'')"
    by (simp add: raises_def)
  ultimately show ?thesis by simp
qed

subsection \<open>No candidates\<close>

lemma main_zero_candidates:
  assumes "fetch_proxies (listing w) = Inr []"
  shows "main w r \<longleftrightarrow> r = aborted [] ValueError"
  using assms
  by (simp add: main_def timing_def main_body_def dispatch_empty build_frame_empty)

lemma fetch_header_only: "fetch_proxies (sample_page [[]]) = Inr []"
  by (simp add: fetch_proxies_def sample_page_def find_table_def)

text \<open>
  Claim C5 says that a run with no candidate completes and writes a header-only file.
  The dispatch does yield the empty list, but \<^verbatim>\<open>proxies, statuses = zip(*proxies)\<close> then
  raises \<^verbatim>\<open>ValueError\<close>: the only run on a listing with no data row ends with that
  exception, writes nothing and exits with status 1.
\<close>

theorem main_zero_candidates_raises:
  "dispatch (probe (sample_world [[]])) (completion (sample_world [[]])) [] = Some (Inr [])
   \<and> (main (sample_world [[]]) r \<longleftrightarrow>
        r = \<lparr>validated = [], written = None, raised = Some ValueError\<rparr>)
   \<and> exit_status \<lparr>validated = [], written = None, raised = Some ValueError\<rparr> = 1"
proof -
  have "fetch_proxies (listing (sample_world [[]])) = Inr []"
    by (simp add: sample_world_def fetch_header_only)
  then have "main (sample_world [[]]) r \<longleftrightarrow> r = aborted [] ValueError"
    by (rule main_zero_candidates)
  then show ?thesis
    by (simp add: dispatch_empty aborted_def exit_status_def)
qed

subsection \<open>The order of the rows\<close>

lemma export_sorted_df_Inr:
  assumes "index_of ''status'' (columns df) = Some k"
  shows "export_sorted_df df name t (Inr art) \<longleftrightarrow>
     header art = columns df \<and> mset (body art) = mset (rows df)
       \<and> sorted_wrt (\<lambda>r r'. r' ! k \<le> r ! k) (body art)
       \<and> file_name art = name @ ''_'' @ datetime_string t @ ''.xlsx''"
  using assms
  by (simp add: export_sorted_df_def timing_def export_sorted_df_body_def sort_values_def)

lemma result_row_status: "result_row r ! 6 = snd r"
  by (simp add: result_row_def astuple_def)

lemma status_of_result_rows: "map (\<lambda>row. row ! 6) (map result_row rs) = map snd rs"
  by (simp add: result_row_status)

text \<open>What an export of the frame of the results \<open>rs\<close> is.\<close>

lemma export_results_iff:
  assumes "build_frame (map checked rs) = Inr df"
  shows "export_sorted_df df name t (Inr art) \<longleftrightarrow>
     header art = Proxy_fields @ [''status''] \<and> mset (body art) = mset (map result_row rs)
       \<and> sorted_wrt (\<lambda>r r'. r' ! 6 \<le> r ! 6) (body art)
       \<and> file_name art = name @ ''_'' @ datetime_string t @ ''.xlsx''"
proof -
  from assms have "rs \<noteq> []"
    by (auto simp: build_frame_empty)
  with assms have df: "df = \<lparr>columns = Proxy_fields @ [''status''], rows = map result_row rs\<rparr>"
    by (simp add: build_frame_checked)
  then have "index_of ''status'' (columns df) = Some 6"
    by (simp add: status_column)
  from export_sorted_df_Inr [OF this] df show ?thesis by simp
qed

text \<open>The sort can always answer: the stable descending order is one possible result.\<close>

lemma export_results_possible:
  assumes "build_frame (map checked rs) = Inr df"
  shows "export_sorted_df df name t
     (Inr \<lparr>file_name = name @ ''_'' @ datetime_string t @ ''.xlsx'',
           header = Proxy_fields @ [''status''],
           body = rev (sort_key (\<lambda>r. r ! 6) (map result_row rs))\<rparr>)"
proof -
  have "sorted (map (\<lambda>r. r ! 6) (sort_key (\<lambda>r. r ! 6) (map result_row rs)))"
    by simp
  then have "sorted_wrt (\<lambda>r r'. r ! 6 \<le> r' ! 6) (sort_key (\<lambda>r. r ! 6) (map result_row rs))"
    by (simp add: sorted_map)
  then have "sorted_wrt (\<lambda>r r'. r' ! 6 \<le> r ! 6)
      (rev (sort_key (\<lambda>r. r ! 6) (map result_row rs)))"
    by (simp add: sorted_wrt_rev)
  then show ?thesis by (simp add: export_results_iff [OF assms])
qed

lemma descending_keys_unique:
  fixes xs ys :: "('a::linorder) list"
  assumes "sorted_wrt (\<lambda>a b. b \<le> a) xs" and "sorted_wrt (\<lambda>a b. b \<le> a) ys"
    and "mset xs = mset ys"
  shows "xs = ys"
proof -
  from assms(1,2) have "sorted (rev xs)" and "sorted (rev ys)"
    by (simp_all add: sorted_wrt_rev)
  moreover from assms(3) have "mset (rev xs) = mset (rev ys)" by simp
  ultimately have "rev xs = rev ys"
    by (metis properties_for_sort)
  then show ?thesis by simp
qed

lemma sorted_rows_status_column:
  fixes xs ys :: "string list list"
  assumes "sorted_wrt (\<lambda>r r'. r' ! k \<le> r ! k) xs"
    and "sorted_wrt (\<lambda>r r'. r' ! k \<le> r ! k) ys"
    and "mset xs = mset ys"
  shows "map (\<lambda>r. r ! k) xs = map (\<lambda>r. r ! k) ys"
proof (rule descending_keys_unique)
  show "sorted_wrt (\<lambda>a b. b \<le> a) (map (\<lambda>r. r ! k) xs)"
    using assms(1) by (simp add: sorted_wrt_map)
  show "sorted_wrt (\<lambda>a b. b \<le> a) (map (\<lambda>r. r ! k) ys)"
    using assms(2) by (simp add: sorted_wrt_map)
  from assms(3) have "image_mset (\<lambda>r. r ! k) (mset xs) = image_mset (\<lambda>r. r ! k) (mset ys)"
    by simp
  then show "mset (map (\<lambda>r. r ! k) xs) = mset (map (\<lambda>r. r ! k) ys)"
    by simp
qed

lemma datetime_string_sample: "datetime_string sample_time = ''2022_09_05_1407''"
proof -
  have "decimal 2022 = ''2022''"
    by (simp add: decimal.simps [of 2022] decimal.simps [of 202] decimal.simps [of 20]
        decimal.simps [of 2] digit_def)
  then show ?thesis
    by (simp add: datetime_string_def sample_time_def two_digits_def digit_def)
qed

lemma build_sample_frame:
  assumes "rs \<noteq> []"
  shows "build_frame (map checked rs) = Inr (sample_frame rs)"
  using build_frame_checked [OF assms] by (simp add: sample_frame_def)

lemma export_sample:
  assumes "rs \<noteq> []" and "mset out = mset rs"
    and "sorted_wrt (\<lambda>r r'. snd r' \<le> snd r) out"
  shows "export_sorted_df (sample_frame rs) ''freeproxylist'' sample_time
     (Inr (sample_artifact out))"
proof -
  from assms(2) have "mset (map result_row out) = mset (map result_row rs)"
    by (metis mset_map)
  moreover from assms(3) have "sorted_wrt (\<lambda>r r'. r' ! 6 \<le> r ! 6) (map result_row out)"
    by (simp add: sorted_wrt_map result_row_status)
  ultimately show ?thesis
    by (simp add: export_results_iff [OF build_sample_frame [OF assms(1)]]
        sample_artifact_def datetime_string_sample)
qed

lemma export_sample_results:
  "export_sorted_df (sample_frame sample_results) ''freeproxylist'' sample_time
     (Inr (sample_artifact sample_sorted_results))"
  by (rule export_sample) (simp_all add: sample_results_def sample_sorted_results_def)

lemma export_sample_sorted:
  "export_sorted_df (sample_frame sample_sorted_results) ''freeproxylist'' sample_time
     (Inr (sample_artifact sample_sorted_results))"
  by (rule export_sample) (simp_all add: sample_sorted_results_def)

lemma export_sample_reversed:
  "export_sorted_df (sample_frame sample_reversed) ''freeproxylist'' sample_time
     (Inr (sample_artifact sample_swapped))"
  by (rule export_sample) (simp_all add: sample_reversed_def sample_swapped_def)

lemma probed_not_empty: "names \<noteq> [] \<Longrightarrow> probed up names \<noteq> []"
  by (simp add: probed_def)

lemma mset_probed: "mset out = mset names \<Longrightarrow> mset (probed up out) = mset (probed up names)"
  unfolding probed_def by (metis mset_map)

lemma sorted_probed:
  assumes "set ups \<subseteq> set up" and "set downs \<inter> set up = {}"
  shows "sorted_wrt (\<lambda>r r'. snd r' \<le> snd r) (probed up (ups @ downs))"
proof -
  have "snd r' \<le> snd r" if "r \<in> set (probed up ups)" "r' \<in> set (probed up downs)" for r r'
  proof -
    from that(1) assms(1) have "snd r = ''working''"
      by (auto simp: probed_def)
    moreover from that(2) assms(2) have "snd r' = ''not working''"
      by (auto simp: probed_def)
    ultimately show ?thesis by simp
  qed
  moreover have "sorted_wrt (\<lambda>r r'. snd r' \<le> snd r) (probed up ups)"
    using assms(1) by (auto simp: probed_def sorted_wrt_map sorted_wrt_iff_nth_less subset_iff)
  moreover have "sorted_wrt (\<lambda>r r'. snd r' \<le> snd r) (probed up downs)"
  proof -
    have "c \<notin> set up" if "c \<in> set downs" for c
      using that assms(2) by auto
    then show ?thesis
      by (auto simp: probed_def sorted_wrt_map sorted_wrt_iff_nth_less)
  qed
  moreover have "probed up (ups @ downs) = probed up ups @ probed up downs"
    by (simp add: probed_def)
  ultimately show ?thesis
    by (simp add: sorted_wrt_append)
qed

text \<open>
  Eighteen dead proxies, and twenty proxies of which D and S work. With more than
  sixteen rows the quicksort partitions, and its partition step exchanges rows of equal
  key; the orders below are of that kind.
\<close>

lemma export_all_dead:
  "export_sorted_df (sample_frame (probed [] ''ABCDEFGHIJKLMNOPQR'')) ''freeproxylist''
     sample_time (Inr (sample_artifact (probed [] ''ABQPONMLKJIHGFEDCR'')))"
proof (rule export_sample)
  show "probed [] ''ABCDEFGHIJKLMNOPQR'' \<noteq> []"
    by (rule probed_not_empty) simp
  have "mset ''ABQPONMLKJIHGFEDCR'' = mset ''ABCDEFGHIJKLMNOPQR''"
    by simp
  then show "mset (probed [] ''ABQPONMLKJIHGFEDCR'') = mset (probed [] ''ABCDEFGHIJKLMNOPQR'')"
    by (rule mset_probed)
  have "sorted_wrt (\<lambda>r r'. snd r' \<le> snd r) (probed [] ([] @ ''ABQPONMLKJIHGFEDCR''))"
    by (rule sorted_probed) simp_all
  then show "sorted_wrt (\<lambda>r r'. snd r' \<le> snd r) (probed [] ''ABQPONMLKJIHGFEDCR'')"
    by simp
qed

lemma export_two_alive:
  "export_sorted_df (sample_frame (probed ''DS'' ''ABCDEFGHIJKLMNOPQRST'')) ''freeproxylist''
     sample_time (Inr (sample_artifact (probed ''DS'' ''SDALRQPONMKBJIHGFECT'')))"
proof (rule export_sample)
  show "probed ''DS'' ''ABCDEFGHIJKLMNOPQRST'' \<noteq> []"
    by (rule probed_not_empty) simp
  have "mset ''SDALRQPONMKBJIHGFECT'' = mset ''ABCDEFGHIJKLMNOPQRST''"
    by simp
  then show "mset (probed ''DS'' ''SDALRQPONMKBJIHGFECT'')
      = mset (probed ''DS'' ''ABCDEFGHIJKLMNOPQRST'')"
    by (rule mset_probed)
  have "sorted_wrt (\<lambda>r r'. snd r' \<le> snd r) (probed ''DS'' (''SD'' @ ''ALRQPONMKBJIHGFECT''))"
    by (rule sorted_probed) simp_all
  then show "sorted_wrt (\<lambda>r r'. snd r' \<le> snd r) (probed ''DS'' ''SDALRQPONMKBJIHGFECT'')"
    by simp
qed

text \<open>
  Claim C6, as amended. For every non-empty list of results given to the reporter, the
  rows of the file are the rows of the results in some order, and no row with status
  \<^verbatim>\<open>"not working"\<close> stands before a row with status \<^verbatim>\<open>"working"\<close>. The order among rows
  of equal status is not determined.
\<close>

theorem report_rows_working_first:
  assumes "build_frame (map checked rs) = Inr df"
    and "export_sorted_df df name t (Inr art)"
  shows "mset (body art) = mset (map result_row rs)
     \<and> \<not> (\<exists>i j. i < j \<and> j < length (body art)
            \<and> body art ! i ! 6 = ''not working'' \<and> body art ! j ! 6 = ''working'')"
proof -
  from assms have m: "mset (body art) = mset (map result_row rs)"
    and s: "sorted_wrt (\<lambda>r r'. r' ! 6 \<le> r ! 6) (body art)"
    by (simp_all add: export_results_iff)
  have "False" if "i < j" "j < length (body art)"
    "body art ! i ! 6 = ''not working''" "body art ! j ! 6 = ''working''" for i j
  proof -
    from s that(1,2) have "body art ! j ! 6 \<le> body art ! i ! 6"
      by (simp add: sorted_wrt_iff_nth_less)
    with that(3,4) show False by simp
  qed
  with m show ?thesis by blast
qed

theorem report_rows_working_first_witness:
  "mset (body (sample_artifact sample_sorted_results)) = mset (map result_row sample_results)
   \<and> \<not> (\<exists>i j. i < j \<and> j < length (body (sample_artifact sample_sorted_results))
        \<and> body (sample_artifact sample_sorted_results) ! i ! 6 = ''not working''
        \<and> body (sample_artifact sample_sorted_results) ! j ! 6 = ''working'')"
proof -
  have "sample_results \<noteq> []"
    by (simp add: sample_results_def)
  then have "build_frame (map checked sample_results) = Inr (sample_frame sample_results)"
    by (rule build_sample_frame)
  from report_rows_working_first [OF this export_sample_results] show ?thesis .
qed

text \<open>
  Claim C6 as stated also asks for a stable order. Of twenty results A to T in which
  only D and S are working, the file may hold S before D: the working rows are then
  S, D in the file and D, S in the input.
\<close>

theorem report_order_not_stable:
  "build_frame (map checked (probed ''DS'' ''ABCDEFGHIJKLMNOPQRST''))
     = Inr (sample_frame (probed ''DS'' ''ABCDEFGHIJKLMNOPQRST''))
   \<and> export_sorted_df (sample_frame (probed ''DS'' ''ABCDEFGHIJKLMNOPQRST'')) ''freeproxylist''
        sample_time (Inr (sample_artifact (probed ''DS'' ''SDALRQPONMKBJIHGFECT'')))
   \<and> filter (\<lambda>row. row ! 6 = ''working'')
        (body (sample_artifact (probed ''DS'' ''SDALRQPONMKBJIHGFECT'')))
      \<noteq> filter (\<lambda>row. row ! 6 = ''working'')
          (map result_row (probed ''DS'' ''ABCDEFGHIJKLMNOPQRST''))"
proof -
  have "probed ''DS'' ''ABCDEFGHIJKLMNOPQRST'' \<noteq> []"
    by (rule probed_not_empty) simp
  then have "build_frame (map checked (probed ''DS'' ''ABCDEFGHIJKLMNOPQRST''))
      = Inr (sample_frame (probed ''DS'' ''ABCDEFGHIJKLMNOPQRST''))"
    by (rule build_sample_frame)
  moreover have "filter (\<lambda>row. row ! 6 = ''working'')
        (body (sample_artifact (probed ''DS'' ''SDALRQPONMKBJIHGFECT'')))
      \<noteq> filter (\<lambda>row. row ! 6 = ''working'')
          (map result_row (probed ''DS'' ''ABCDEFGHIJKLMNOPQRST''))"
    by (simp add: sample_artifact_def probed_def result_row_status)
      (simp add: result_row_def astuple_def sample_proxy_def)
  ultimately show ?thesis using export_two_alive by simp
qed

text \<open>
  Claim C7, as amended. Sorting results that are already in working-first order gives
  a file with the same rows and the same column of statuses (the rows of equal status
  may have moved). For two lists that hold the same results in different orders, the
  two files have the same rows and the same column of statuses.
\<close>

theorem report_sort_fixes_status_column:
  assumes "build_frame (map checked rs) = Inr df"
    and "export_sorted_df df name t (Inr art)"
  shows "(sorted_wrt (\<lambda>r r'. snd r' \<le> snd r) rs \<longrightarrow>
        map (\<lambda>row. row ! 6) (body art) = map snd rs
        \<and> mset (body art) = mset (map result_row rs))
     \<and> (\<forall>rs' df' name' t' art'.
          mset rs' = mset rs \<and> build_frame (map checked rs') = Inr df'
          \<and> export_sorted_df df' name' t' (Inr art') \<longrightarrow>
          map (\<lambda>row. row ! 6) (body art') = map (\<lambda>row. row ! 6) (body art)
          \<and> mset (body art') = mset (body art))"
proof -
  from assms have m: "mset (body art) = mset (map result_row rs)"
    and s: "sorted_wrt (\<lambda>r r'. r' ! 6 \<le> r ! 6) (body art)"
    by (simp_all add: export_results_iff)
  have again: "map (\<lambda>row. row ! 6) (body art) = map snd rs"
    if "sorted_wrt (\<lambda>r r'. snd r' \<le> snd r) rs"
  proof -
    from that have "sorted_wrt (\<lambda>r r'. r' ! 6 \<le> r ! 6) (map result_row rs)"
      by (simp add: sorted_wrt_map result_row_status)
    with s have "map (\<lambda>row. row ! 6) (body art) = map (\<lambda>row. row ! 6) (map result_row rs)"
      using m by (rule sorted_rows_status_column)
    then show ?thesis by (simp only: status_of_result_rows)
  qed
  have perm: "map (\<lambda>row. row ! 6) (body art') = map (\<lambda>row. row ! 6) (body art)
      \<and> mset (body art') = mset (body art)"
    if p: "mset rs' = mset rs" and b: "build_frame (map checked rs') = Inr df'"
      and e: "export_sorted_df df' name' t' (Inr art')" for rs' df' name' t' art'
  proof -
    from b e have m': "mset (body art') = mset (map result_row rs')"
      and s': "sorted_wrt (\<lambda>r r'. r' ! 6 \<le> r ! 6) (body art')"
      by (simp_all add: export_results_iff)
    from p have "mset (map result_row rs') = mset (map result_row rs)"
      by (metis mset_map)
    with m m' have eq: "mset (body art') = mset (body art)" by simp
    from s' s eq have "map (\<lambda>row. row ! 6) (body art') = map (\<lambda>row. row ! 6) (body art)"
      by (rule sorted_rows_status_column)
    with eq show ?thesis by simp
  qed
  from again m perm show ?thesis by blast
qed

theorem report_sort_fixes_status_column_witness:
  "map (\<lambda>row. row ! 6) (body (sample_artifact sample_sorted_results))
      = map snd sample_sorted_results
   \<and> mset (body (sample_artifact sample_sorted_results))
      = mset (map result_row sample_sorted_results)
   \<and> map (\<lambda>row. row ! 6) (body (sample_artifact sample_swapped))
      = map (\<lambda>row. row ! 6) (body (sample_artifact sample_sorted_results))
   \<and> mset (body (sample_artifact sample_swapped))
      = mset (body (sample_artifact sample_sorted_results))"
proof -
  have ne: "sample_sorted_results \<noteq> []" "sample_reversed \<noteq> []"
    by (simp_all add: sample_sorted_results_def sample_reversed_def)
  have sorted: "sorted_wrt (\<lambda>r r'. snd r' \<le> snd r) sample_sorted_results"
    by (simp add: sample_sorted_results_def)
  have same: "mset sample_reversed = mset sample_sorted_results"
    by (simp add: sample_sorted_results_def sample_reversed_def)
  note inst = report_sort_fixes_status_column
    [OF build_sample_frame [OF ne(1)] export_sample_sorted]
  from inst sorted
  have "map (\<lambda>row. row ! 6) (body (sample_artifact sample_sorted_results))
        = map snd sample_sorted_results
      \<and> mset (body (sample_artifact sample_sorted_results))
        = mset (map result_row sample_sorted_results)"
    by blast
  moreover from inst same build_sample_frame [OF ne(2)] export_sample_reversed
  have "map (\<lambda>row. row ! 6) (body (sample_artifact sample_swapped))
        = map (\<lambda>row. row ! 6) (body (sample_artifact sample_sorted_results))
      \<and> mset (body (sample_artifact sample_swapped))
        = mset (body (sample_artifact sample_sorted_results))"
    by blast
  ultimately show ?thesis by simp
qed

text \<open>
  Claim C7 as stated says that sorting a sorted list changes nothing. Eighteen results
  A to R, none working, are in working-first order, and the file may hold them as
  A, B, Q, P, ..., D, C, R.
\<close>

theorem report_sort_not_idempotent:
  "sorted_wrt (\<lambda>r r'. snd r' \<le> snd r) (probed [] ''ABCDEFGHIJKLMNOPQR'')
   \<and> build_frame (map checked (probed [] ''ABCDEFGHIJKLMNOPQR''))
       = Inr (sample_frame (probed [] ''ABCDEFGHIJKLMNOPQR''))
   \<and> export_sorted_df (sample_frame (probed [] ''ABCDEFGHIJKLMNOPQR'')) ''freeproxylist''
        sample_time (Inr (sample_artifact (probed [] ''ABQPONMLKJIHGFEDCR'')))
   \<and> body (sample_artifact (probed [] ''ABQPONMLKJIHGFEDCR''))
       \<noteq> map result_row (probed [] ''ABCDEFGHIJKLMNOPQR'')"
proof -
  have "probed [] ''ABCDEFGHIJKLMNOPQR'' \<noteq> []"
    by (rule probed_not_empty) simp
  then have "build_frame (map checked (probed [] ''ABCDEFGHIJKLMNOPQR''))
      = Inr (sample_frame (probed [] ''ABCDEFGHIJKLMNOPQR''))"
    by (rule build_sample_frame)
  moreover have "sorted_wrt (\<lambda>r r'. snd r' \<le> snd r) (probed [] ([] @ ''ABCDEFGHIJKLMNOPQR''))"
    by (rule sorted_probed) simp_all
  moreover have "body (sample_artifact (probed [] ''ABQPONMLKJIHGFEDCR''))
      \<noteq> map result_row (probed [] ''ABCDEFGHIJKLMNOPQR'')"
    by (simp add: sample_artifact_def probed_def result_row_def astuple_def sample_proxy_def)
  ultimately show ?thesis using export_all_dead by simp
qed

subsection \<open>The name and the columns of the file\<close>

lemma below_ten: "d < 10 \<Longrightarrow> d \<in> {0, 1, 2, 3, 4, 5, 6, 7, 8, 9::nat}"
  by auto

lemma digit_is_digit: "is_digit (digit d)"
proof -
  have "d mod 10 < length ''0123456789''" by simp
  then have "''0123456789'' ! (d mod 10) \<in> set ''0123456789''"
    by (rule nth_mem)
  then show ?thesis by (simp only: is_digit_def digit_def)
qed

lemma digit_value_digit:
  assumes "d < 10"
  shows "digit_value (digit d) = d"
proof -
  from assms have "d \<in> {0, 1, 2, 3, 4, 5, 6, 7, 8, 9::nat}" by (rule below_ten)
  then show ?thesis
    by (auto simp: digit_value_def digit_def)
qed

lemma decimal_small: "n < 10 \<Longrightarrow> decimal n = [digit n]"
  by (subst decimal.simps) simp

lemma decimal_step: "10 \<le> n \<Longrightarrow> decimal n = decimal (n div 10) @ [digit (n mod 10)]"
  by (subst decimal.simps) simp

lemma decimal_four_digits:
  assumes "1000 \<le> n" and "n \<le> 9999"
  shows "decimal n =
     [digit (n div 10 div 10 div 10), digit (n div 10 div 10 mod 10), digit (n div 10 mod 10),
      digit (n mod 10)]"
proof -
  from assms have a: "10 \<le> n" "10 \<le> n div 10" "10 \<le> n div 10 div 10"
    and b: "n div 10 div 10 div 10 < 10"
    by simp_all
  have "decimal n = decimal (n div 10) @ [digit (n mod 10)]"
    using a(1) by (rule decimal_step)
  also have "decimal (n div 10) = decimal (n div 10 div 10) @ [digit (n div 10 mod 10)]"
    using a(2) by (rule decimal_step)
  also have "decimal (n div 10 div 10) =
      decimal (n div 10 div 10 div 10) @ [digit (n div 10 div 10 mod 10)]"
    using a(3) by (rule decimal_step)
  also have "decimal (n div 10 div 10 div 10) = [digit (n div 10 div 10 div 10)]"
    using b by (rule decimal_small)
  finally show ?thesis by simp
qed

lemma read_two_digits:
  assumes "n < 100"
  shows "read_decimal (two_digits n) = n"
proof -
  from assms have "n div 10 < 10" and "n mod 10 < 10" by auto
  then show ?thesis
    by (simp add: read_decimal_def two_digits_def digit_value_digit)
qed

lemma read_four_digits:
  assumes "1000 \<le> n" and "n \<le> 9999"
  shows "read_decimal (decimal n) = n"
proof -
  have d: "n div 10 div 10 div 10 < 10"
    using assms by simp
  have m: "k mod 10 < 10" for k :: nat
    by simp
  have "read_decimal (decimal n) =
      10 * (10 * (10 * (n div 10 div 10 div 10) + n div 10 div 10 mod 10) + n div 10 mod 10)
        + n mod 10"
    by (simp add: decimal_four_digits [OF assms] read_decimal_def digit_value_digit d m)
  also have "\<dots> = n"
    by simp
  finally show ?thesis .
qed

lemma datetime_string_is_stamp:
  assumes "valid_time t"
  shows "is_stamp t (datetime_string t)"
proof -
  from assms have y: "1000 \<le> tm_year t" "tm_year t \<le> 9999"
    and f: "tm_mon t < 100" "tm_mday t < 100" "tm_hour t < 100" "tm_min t < 100"
    by (simp_all add: valid_time_def)
  let ?Y = "[digit (tm_year t div 10 div 10 div 10), digit (tm_year t div 10 div 10 mod 10),
      digit (tm_year t div 10 mod 10), digit (tm_year t mod 10)]"
  have Y: "decimal (tm_year t) = ?Y"
    using y by (rule decimal_four_digits)
  have rY: "read_decimal ?Y = tm_year t"
    using read_four_digits [OF y] by (simp only: Y)
  have two: "two_digits n = [digit (n div 10), digit (n mod 10)]" for n
    by (simp add: two_digits_def)
  have r: "read_decimal [digit (n div 10), digit (n mod 10)] = n" if "n < 100" for n
    using read_two_digits [OF that] by (simp only: two)
  have s: "datetime_string t = ?Y @ ''_'' @ two_digits (tm_mon t) @ ''_''
      @ two_digits (tm_mday t) @ ''_'' @ two_digits (tm_hour t) @ two_digits (tm_min t)"
    by (simp only: datetime_string_def Y)
  show ?thesis
    unfolding is_stamp_def s two
    using rY f by (simp add: digit_is_digit r)
qed

text \<open>A run that wrote a file validated a non-empty list of records and exported the
  frame of their results.\<close>

lemma main_written:
  assumes "main w r" and "written r = Some art"
  shows "\<exists>rs. rs \<noteq> [] \<and> fetch_proxies (listing w) = Inr (map fst rs)
     \<and> dispatch (probe w) (completion w) (map fst rs) = Some (Inr (map checked rs))
     \<and> export_sorted_df \<lparr>columns = Proxy_fields @ [''status''], rows = map result_row rs\<rparr>
          ''freeproxylist'' (localtime w) (Inr art)
     \<and> raised r = None \<and> validated r = map fst rs"
proof -
  from assms(1) have m: "main_body w r" by (simp add: main_def timing_def)
  from m assms(2) obtain proxies where f: "fetch_proxies (listing w) = Inr proxies"
    by (cases "fetch_proxies (listing w)") (auto simp: main_body_def aborted_def)
  from m assms(2) f obtain cells where
    d: "dispatch (probe w) (completion w) proxies = Some (Inr cells)"
    by (cases "dispatch (probe w) (completion w) proxies")
      (auto simp: main_body_def aborted_def split: sum.splits)
  from dispatch_Inr_checked [OF d] obtain rs where
    rs: "cells = map checked rs" "map fst rs = proxies"
    by blast
  from m assms(2) f d obtain df where b: "build_frame cells = Inr df"
    by (cases "build_frame cells") (auto simp: main_body_def aborted_def)
  from b rs(1) have ne: "rs \<noteq> []"
    by (auto simp: build_frame_empty)
  with b rs(1) have df: "df = \<lparr>columns = Proxy_fields @ [''status''], rows = map result_row rs\<rparr>"
    by (simp add: build_frame_checked)
  from m assms(2) f d b have "validated r = proxies \<and> raised r = None
      \<and> export_sorted_df df ''freeproxylist'' (localtime w) (Inr art)"
    by (auto simp: main_body_def split: option.splits)
  with ne f d rs df show ?thesis by auto
qed

text \<open>
  Claim C9. The file written for a non-empty list of results is named by the prefix,
  an underscore, the local time as \<^verbatim>\<open>YYYY_MM_DD_HHMM\<close> and \<^verbatim>\<open>.xlsx\<close>; its columns are
  the six fields of \<^verbatim>\<open>Proxy\<close> and \<^verbatim>\<open>status\<close>.
\<close>

theorem report_name_and_columns:
  assumes "build_frame (map checked rs) = Inr df"
    and "export_sorted_df df name t (Inr art)"
    and "valid_time t"
  shows "(\<exists>stamp. file_name art = name @ ''_'' @ stamp @ ''.xlsx'' \<and> is_stamp t stamp)
     \<and> header art =
         [''ip'', ''port'', ''country'', ''anonymity'', ''https'', ''last_checked'', ''status'']"
proof -
  from assms(1,2) have "file_name art = name @ ''_'' @ datetime_string t @ ''.xlsx''"
    and hd: "header art = Proxy_fields @ [''status'']"
    by (simp_all add: export_results_iff)
  moreover from assms(3) have "is_stamp t (datetime_string t)"
    by (rule datetime_string_is_stamp)
  ultimately have "\<exists>stamp. file_name art = name @ ''_'' @ stamp @ ''.xlsx'' \<and> is_stamp t stamp"
    by blast
  moreover from hd have "header art =
      [''ip'', ''port'', ''country'', ''anonymity'', ''https'', ''last_checked'', ''status'']"
    by (simp add: Proxy_fields_def)
  ultimately show ?thesis by simp
qed

theorem report_name_and_columns_witness:
  "(\<exists>stamp. file_name (sample_artifact sample_sorted_results)
        = ''freeproxylist'' @ ''_'' @ stamp @ ''.xlsx'' \<and> is_stamp sample_time stamp)
   \<and> header (sample_artifact sample_sorted_results) =
       [''ip'', ''port'', ''country'', ''anonymity'', ''https'', ''last_checked'', ''status'']"
proof -
  have "sample_results \<noteq> []"
    by (simp add: sample_results_def)
  then have b: "build_frame (map checked sample_results) = Inr (sample_frame sample_results)"
    by (rule build_sample_frame)
  have t: "valid_time sample_time"
    by (simp add: valid_time_def sample_time_def)
  from report_name_and_columns [OF b export_sample_results t] show ?thesis .
qed

text \<open>The same for a whole run: the prefix \<^verbatim>\<open>main\<close> passes is \<^verbatim>\<open>freeproxylist\<close>.\<close>

lemma main_report_name_and_columns:
  assumes "main w r" and "written r = Some art" and "valid_time (localtime w)"
  shows "file_name art = ''freeproxylist_'' @ datetime_string (localtime w) @ ''.xlsx''
     \<and> is_stamp (localtime w) (datetime_string (localtime w))
     \<and> header art = Proxy_fields @ [''status'']"
proof -
  from main_written [OF assms(1,2)] obtain rs where "rs \<noteq> []"
    and e: "export_sorted_df \<lparr>columns = Proxy_fields @ [''status''], rows = map result_row rs\<rparr>
          ''freeproxylist'' (localtime w) (Inr art)"
    by blast
  from build_frame_checked [OF this(1)] e
  have "file_name art = ''freeproxylist'' @ ''_'' @ datetime_string (localtime w) @ ''.xlsx''"
    and "header art = Proxy_fields @ [''status'']"
    by (simp_all add: export_results_iff)
  with datetime_string_is_stamp [OF assms(3)] show ?thesis by simp
qed

lemma fetch_sample_listing:
  "fetch_proxies (listing (sample_world sample_listing)) = Inr (map fst sample_results)"
  by (simp add: sample_world_def sample_listing_def sample_page_def fetch_proxies_def
      find_table_def parse_row_def item_def sample_tr_def sample_results_def sample_proxy_def)

lemma dispatch_sample_listing:
  "dispatch (probe (sample_world sample_listing)) (completion (sample_world sample_listing))
     (map fst sample_results) = Some (Inr (map checked sample_results))"
proof -
  have "completion (sample_world sample_listing) = [2, 1, 0]"
    by (simp add: sample_world_def sample_listing_def upt_rec)
  then show ?thesis
    by (simp add: sample_world_def sample_results_def dispatch_def run_pool_def submit_all_def
        run_task_def sample_gets_def check_proxy_simps raises_def responds_def checked_def)
qed

lemma main_sample_run: "main (sample_world sample_listing) sample_run"
proof -
  have "sample_results \<noteq> []"
    by (simp add: sample_results_def)
  then have "build_frame (map checked sample_results) = Inr (sample_frame sample_results)"
    by (rule build_sample_frame)
  moreover have "localtime (sample_world sample_listing) = sample_time"
    by (simp add: sample_world_def)
  ultimately show ?thesis
    using export_sample_results
    by (simp add: main_def timing_def main_body_def fetch_sample_listing
        dispatch_sample_listing sample_run_def)
qed

end
